theory Spec2Isabelle
  imports Main "HOL-Library.Multiset" "HOL-Library.Char_ord" "HOL-Library.List_Lexorder"
begin

section \<open>Data of the dead-function analysis (deadcode.go)\<close>

text \<open>
  \<^verbatim>\<open>token.Position\<close> of go/token: file name, byte offset, line and column. It is the key of
  the map \<^verbatim>\<open>reachablePosn\<close>, so two positions are the same key when all four fields agree.
\<close>

record Position =
  pos_Filename :: string
  pos_Offset :: int
  pos_Line :: int
  pos_Column :: int

text \<open>
  \<^verbatim>\<open>token.Pos\<close> is an integer, \<^verbatim>\<open>token.NoPos\<close> is 0 and \<^verbatim>\<open>p.IsValid()\<close> is
  \<^verbatim>\<open>p != NoPos\<close>. \<^verbatim>\<open>prog.Fset.Position(p)\<close> gives the zero Position for NoPos and looks
  the file table up otherwise; the file table is the parameter \<open>fs\<close>.
\<close>

definition NoPos :: int where
  "NoPos = 0"

definition IsValid :: "int \<Rightarrow> bool" where
  "IsValid p = (p \<noteq> NoPos)"

definition zeroPosition :: Position where
  "zeroPosition = \<lparr>pos_Filename = [], pos_Offset = 0, pos_Line = 0, pos_Column = 0\<rparr>"

definition Fset_Position :: "(int \<Rightarrow> Position) \<Rightarrow> int \<Rightarrow> Position" where
  "Fset_Position fs p = (if p \<noteq> NoPos then fs p else zeroPosition)"

text \<open>
  What the analysis reads of an \<^verbatim>\<open>*ssa.Function\<close>: \<^verbatim>\<open>fn.Name()\<close>, \<^verbatim>\<open>fn.Pos()\<close> and
  \<^verbatim>\<open>fn.Pkg.Pkg.Path()\<close>. The inner maps of \<^verbatim>\<open>byPkgPath\<close> are keyed by the pointer; a key
  enters such a map only when its position is new, so the keys of one map differ in
  \<open>fn_Pos\<close> and the record value identifies them.
\<close>

record ssa_Function =
  fn_Name :: string
  fn_Pos :: int
  fn_PkgPath :: string

text \<open>\<^verbatim>\<open>posn := prog.Fset.Position(fn.Pos())\<close>, the key a function is looked up by.\<close>

abbreviation posnOf :: "(int \<Rightarrow> Position) \<Rightarrow> ssa_Function \<Rightarrow> Position" where
  "posnOf fs fn \<equiv> Fset_Position fs (fn_Pos fn)"

text \<open>The linter's result type and its settings (deadcode.go, lines 30-40).\<close>

record Issue =
  Func :: string
  Filename :: string
  Line :: int

record Settings =
  Test :: bool
  Filter :: string

text \<open>
  A loaded package, as far as the analysis looks at it: \<^verbatim>\<open>Module\<close> is \<open>None\<close> for a nil
  module and \<open>Some path\<close> for \<^verbatim>\<open>Module.Path\<close>.
\<close>

record Package =
  pkg_ID :: string
  pkg_Module :: "string option"

text \<open>
  The results of the collaborators for one load: \<^verbatim>\<open>packages.Load\<close> (\<open>initial\<close>),
  \<^verbatim>\<open>packages.PrintErrors\<close>, the number of packages \<^verbatim>\<open>ssautil.MainPackages\<close> finds, the walk of the
  syntax trees (\<open>sourceFuncs\<close>, and the file names \<^verbatim>\<open>ast.IsGenerated\<close> flags), the keys of
  \<^verbatim>\<open>rta.Analyze(roots, false).Reachable\<close>, and the file table of \<^verbatim>\<open>prog.Fset\<close>.

  The file table is read in two ways. \<open>fset\<close> is \<^verbatim>\<open>Fset.Position(p)\<close>, which follows the
  \<^verbatim>\<open>//line\<close> directives of the source: its file name and line are the ones a directive
  before \<open>p\<close> has set. \<open>fileName\<close> is \<^verbatim>\<open>Fset.File(p).Name()\<close>, the name of the file
  that \<open>p\<close> lies in. Line 167 enters a generated file into \<open>generated\<close> under its
  \<open>fileName\<close>; line 212 looks the file name of \<open>fset\<close> up.
\<close>

record Loaded =
  initial :: "Package list"
  printErrors :: nat
  mains :: nat
  sourceFuncs :: "ssa_Function list"
  generated :: "string list"
  reachable :: "ssa_Function list"
  fset :: "int \<Rightarrow> Position"
  fileName :: "int \<Rightarrow> string"

text \<open>
  The libraries and the process state the code calls: \<^verbatim>\<open>packages.Load(cfg, "./...")\<close> as a
  function of \<^verbatim>\<open>cfg.Tests\<close>, \<^verbatim>\<open>regexp.Compile\<close> (an error text, or the pattern's
  \<^verbatim>\<open>MatchString\<close>), \<^verbatim>\<open>regexp.QuoteMeta\<close>, the pair \<^verbatim>\<open>os.Getwd()\<close> returned when the
  package was initialised, and \<^verbatim>\<open>filepath.Rel\<close>.
\<close>

record Env =
  Load :: "bool \<Rightarrow> string + Loaded"
  Compile :: "string \<Rightarrow> string + (string \<Rightarrow> bool)"
  QuoteMeta :: "string \<Rightarrow> string"
  Getwd :: "string \<times> string option"
  filepath_Rel :: "string \<Rightarrow> string \<Rightarrow> string + string"

section \<open>Rel (deadcode.go, lines 22 and 227-233)\<close>

text \<open>\<^verbatim>\<open>var cwd, _ = os.Getwd()\<close>: the directory is kept, the error is dropped.\<close>

definition cwd :: "Env \<Rightarrow> string" where
  "cwd env = fst (Getwd env)"

definition Rel :: "Env \<Rightarrow> string \<Rightarrow> string" where
  "Rel env filename =
     (case filepath_Rel env (cwd env) filename of
        Inr rel \<Rightarrow> rel
      | Inl err \<Rightarrow> filename)"

section \<open>The stages of runAnalysis\<close>

text \<open>
  Go leaves the order in which \<^verbatim>\<open>range\<close> visits the keys of a map open. One traversal
  is modelled by a ranking of the keys: the keys are visited by ascending rank (keys of
  equal rank in the order they were inserted). Every order of the distinct keys of a map
  is the traversal of some ranking, and every ranking gives a traversal that visits each
  key once.
\<close>

definition rangeKeys :: "('k \<Rightarrow> nat) \<Rightarrow> 'k list \<Rightarrow> 'k list" where
  "rangeKeys rank ks = sort_key rank ks"

text \<open>
  The ranking that visits the keys in a given order: the rank of a key is its index in
  that order (lemma \<open>rangeKeys_any_order\<close>).
\<close>

definition visitRank :: "'k list \<Rightarrow> 'k \<Rightarrow> nat" where
  "visitRank order k = length (takeWhile (\<lambda>x. x \<noteq> k) order)"

text \<open>Lines 175-180: the positions of the functions the call graph reaches.\<close>

definition reachablePosn :: "(int \<Rightarrow> Position) \<Rightarrow> ssa_Function list \<Rightarrow> Position set" where
  "reachablePosn fs reach =
     Fset_Position fs ` fn_Pos `
       set (filter (\<lambda>fn. IsValid (fn_Pos fn) \<or> fn_Name fn = ''init'') reach)"

text \<open>
  \<^verbatim>\<open>byPkgPath\<close> is a map from package path to a set of functions; it is kept as an
  association list in order of first insertion, the set of a path as the list of its
  members. \<open>groupInsert\<close> is lines 190-196: find or create the inner map, set
  \<^verbatim>\<open>m[fn] = true\<close>.
\<close>

type_synonym groups = "(string \<times> ssa_Function list) list"

fun groupInsert :: "string \<Rightarrow> ssa_Function \<Rightarrow> groups \<Rightarrow> groups" where
  "groupInsert pkgpath fn [] = [(pkgpath, [fn])]"
| "groupInsert pkgpath fn ((k, m) # rest) =
     (if k = pkgpath then (k, if fn \<in> set m then m else m @ [fn]) # rest
      else (k, m) # groupInsert pkgpath fn rest)"

text \<open>
  Lines 184-198: the loop over \<^verbatim>\<open>sourceFuncs\<close>, with the two maps it updates as the
  state.
\<close>

fun byPkgPath ::
  "(int \<Rightarrow> Position) \<Rightarrow> ssa_Function list \<Rightarrow> Position set \<times> groups \<Rightarrow> Position set \<times> groups"
where
  "byPkgPath fs [] st = st"
| "byPkgPath fs (fn # fns) (reach, grp) =
     (let posn = Fset_Position fs (fn_Pos fn) in
      if posn \<notin> reach
      then byPkgPath fs fns (insert posn reach, groupInsert (fn_PkgPath fn) fn grp)
      else byPkgPath fs fns (reach, grp))"

text \<open>\<^verbatim>\<open>m := byPkgPath[pkgpath]\<close>: a missing key reads as the nil map.\<close>

definition lookupGroup :: "groups \<Rightarrow> string \<Rightarrow> ssa_Function list" where
  "lookupGroup grp pkgpath = (case map_of grp pkgpath of None \<Rightarrow> [] | Some m \<Rightarrow> m)"

text \<open>
  \<^verbatim>\<open>filter != nil && !filter.MatchString(pkgpath)\<close> is the test that skips a package;
  \<open>filterAllows\<close> is its negation.
\<close>

definition filterAllows :: "(string \<Rightarrow> bool) option \<Rightarrow> string \<Rightarrow> bool" where
  "filterAllows flt pkgpath = (case flt of None \<Rightarrow> True | Some re \<Rightarrow> re pkgpath)"

definition issueOf :: "Env \<Rightarrow> (int \<Rightarrow> Position) \<Rightarrow> ssa_Function \<Rightarrow> Issue" where
  "issueOf env fs fn =
     (let pos = Fset_Position fs (fn_Pos fn) in
      \<lparr>Func = fn_Name fn, Filename = Rel env (pos_Filename pos), Line = pos_Line pos\<rparr>)"

text \<open>
  Lines 201-222 of deadcode.go: both loops range over \<^verbatim>\<open>maps.Keys\<close> of a map, in the
  order the runtime picks (\<open>ordP\<close> for the package paths, \<open>ordF\<close> for the functions).
\<close>

definition buildIssues ::
  "(string \<Rightarrow> nat) \<Rightarrow> (ssa_Function \<Rightarrow> nat) \<Rightarrow> Env \<Rightarrow> (string \<Rightarrow> bool) option \<Rightarrow>
   string list \<Rightarrow> (int \<Rightarrow> Position) \<Rightarrow> groups \<Rightarrow> Issue list"
where
  "buildIssues ordP ordF env flt gen fs grp =
     concat (map (\<lambda>pkgpath.
         if \<not> filterAllows flt pkgpath then []
         else concat (map (\<lambda>fn.
                 if pos_Filename (Fset_Position fs (fn_Pos fn)) \<in> set gen then []
                 else [issueOf env fs fn])
               (rangeKeys ordF (lookupGroup grp pkgpath))))
       (rangeKeys ordP (map fst grp)))"

text \<open>
  The functions the loop of lines 201-222 appends an Issue for, in the order it appends
  them (\<open>buildIssues\<close> maps \<open>issueOf\<close> over this list, lemma \<open>buildIssues_reported\<close>).
\<close>

definition reported ::
  "(string \<Rightarrow> nat) \<Rightarrow> (ssa_Function \<Rightarrow> nat) \<Rightarrow> (string \<Rightarrow> bool) option \<Rightarrow>
   string list \<Rightarrow> (int \<Rightarrow> Position) \<Rightarrow> groups \<Rightarrow> ssa_Function list"
where
  "reported ordP ordF flt gen fs grp =
     concat (map (\<lambda>pkgpath.
         if \<not> filterAllows flt pkgpath then []
         else filter (\<lambda>fn. pos_Filename (Fset_Position fs (fn_Pos fn)) \<notin> set gen)
                (rangeKeys ordF (lookupGroup grp pkgpath)))
       (rangeKeys ordP (map fst grp)))"

text \<open>Lines 129-137: the filter is nil when the option is empty.\<close>

definition compileFilter :: "Env \<Rightarrow> string \<Rightarrow> string + (string \<Rightarrow> bool) option" where
  "compileFilter env filterFlag =
     (if filterFlag \<noteq> []
      then (case Compile env filterFlag of
              Inl err \<Rightarrow> Inl (''failed create filter: '' @ err)
            | Inr re \<Rightarrow> Inr (Some re))
      else Inr None)"

text \<open>Lines 148-224, for a load that passed the checks: the Issue list returned.\<close>

definition deadIssues ::
  "(string \<Rightarrow> nat) \<Rightarrow> (ssa_Function \<Rightarrow> nat) \<Rightarrow> Env \<Rightarrow> (string \<Rightarrow> bool) option \<Rightarrow> Loaded \<Rightarrow>
   Issue list"
where
  "deadIssues ordP ordF env flt ld =
     buildIssues ordP ordF env flt (generated ld) (fset ld)
       (snd (byPkgPath (fset ld) (sourceFuncs ld)
          (reachablePosn (fset ld) (reachable ld), [])))"

text \<open>
  The functions behind the Issues of \<open>deadIssues\<close>, in the same order (lemma
  \<open>deadIssues_deadFuncs\<close>).
\<close>

definition deadFuncs ::
  "(string \<Rightarrow> nat) \<Rightarrow> (ssa_Function \<Rightarrow> nat) \<Rightarrow> (string \<Rightarrow> bool) option \<Rightarrow> Loaded \<Rightarrow>
   ssa_Function list"
where
  "deadFuncs ordP ordF flt ld =
     reported ordP ordF flt (generated ld) (fset ld)
       (snd (byPkgPath (fset ld) (sourceFuncs ld)
          (reachablePosn (fset ld) (reachable ld), [])))"

subsection \<open>Notions for the proofs\<close>

text \<open>
  The test a grouped function passes to get an Issue, the functions the loop of lines
  184-198 puts into \<^verbatim>\<open>byPkgPath\<close> (in the order of \<^verbatim>\<open>sourceFuncs\<close>), the members of all
  groups, and the invariant of that loop.
\<close>

abbreviation survives ::
  "(string \<Rightarrow> bool) option \<Rightarrow> string list \<Rightarrow> (int \<Rightarrow> Position) \<Rightarrow> ssa_Function \<Rightarrow> bool"
where
  "survives flt gen fs fn \<equiv>
     filterAllows flt (fn_PkgPath fn) \<and> pos_Filename (posnOf fs fn) \<notin> set gen"

fun unreachable ::
  "(int \<Rightarrow> Position) \<Rightarrow> ssa_Function list \<Rightarrow> Position set \<Rightarrow> ssa_Function list"
where
  "unreachable fs [] reach = []"
| "unreachable fs (fn # fns) reach =
     (if posnOf fs fn \<notin> reach then fn # unreachable fs fns (insert (posnOf fs fn) reach)
      else unreachable fs fns reach)"

definition grpFuncs :: "groups \<Rightarrow> ssa_Function list" where
  "grpFuncs grp = concat (map snd grp)"

definition grp_inv :: "(int \<Rightarrow> Position) \<Rightarrow> Position set \<Rightarrow> groups \<Rightarrow> bool" where
  "grp_inv fs reach grp =
     (distinct (map fst grp) \<and>
      (\<forall>(k, m) \<in> set grp. \<forall>fn \<in> set m. fn_PkgPath fn = k) \<and>
      posnOf fs ` set (grpFuncs grp) \<subseteq> reach \<and>
      distinct (map (posnOf fs) (grpFuncs grp)))"

section \<open>runAnalysis (deadcode.go, lines 106-225)\<close>

text \<open>
  The Go function returns the pair \<^verbatim>\<open>([]Issue, error)\<close>; a nil slice is the empty list and
  a nil error is \<open>None\<close>. \<^verbatim>\<open>fmt.Errorf("Load: %v", err)\<close> is the text of the error after the
  prefix.
\<close>

definition runAnalysis ::
  "(string \<Rightarrow> nat) \<Rightarrow> (ssa_Function \<Rightarrow> nat) \<Rightarrow> Env \<Rightarrow> Settings \<Rightarrow> Issue list \<times> string option"
where
  "runAnalysis ordP ordF env settings =
     (let testFlag = Test settings; filterFlag = Filter settings in
      case Load env testFlag of
        Inl err \<Rightarrow> ([], Some (''Load: '' @ err))
      | Inr ld \<Rightarrow>
          if length (initial ld) = 0 then ([], Some ''no find packages'')
          else if printErrors ld > 0 then ([], Some ''packages contain errors'')
          else (case compileFilter env filterFlag of
                  Inl msg \<Rightarrow> ([], Some msg)
                | Inr flt \<Rightarrow>
                    if mains ld = 0 then ([], Some ''no find main packages'')
                    else (deadIssues ordP ordF env flt ld, None)))"

section \<open>The variant of part_000 (plugin "deadfunc")\<close>

text \<open>
  The second source file holds another version of the same analysis. It takes no
  settings (\<^verbatim>\<open>testFlag := false\<close>, \<^verbatim>\<open>filterFlag := "<module>"\<close>), ends every fatal condition
  with \<^verbatim>\<open>log.Fatalf\<close>, which prints and exits the process, derives the filter from the first
  module, and ranges over the sorted package paths. Lines 141-167 are the same as lines
  172-198 of deadcode.go, so \<open>reachablePosn\<close> and \<open>byPkgPath\<close> serve both.
\<close>

datatype 'a run = Exited string | Returned 'a

record DeadfuncIssue =
  df_Name :: string
  df_Filename :: string
  df_Line :: int
  df_Pos :: int

definition GetFilenameRelative :: "Env \<Rightarrow> string \<Rightarrow> string" where
  "GetFilenameRelative env filename =
     (case filepath_Rel env (cwd env) filename of
        Inr rel \<Rightarrow> rel
      | Inl err \<Rightarrow> filename)"

text \<open>Lines 94-101 of part_000; the pattern ends in a backslash and the letter b.\<close>

definition moduleFilter :: "Env \<Rightarrow> Package \<Rightarrow> string" where
  "moduleFilter env first =
     (case pkg_Module first of
        None \<Rightarrow> []
      | Some path \<Rightarrow>
          if path \<noteq> [] then ''^'' @ QuoteMeta env path @ [CHR 0x5C, CHR ''b''] else [])"

definition issueOf_deadfunc :: "Env \<Rightarrow> (int \<Rightarrow> Position) \<Rightarrow> ssa_Function \<Rightarrow> DeadfuncIssue" where
  "issueOf_deadfunc env fs fn =
     (let pos = Fset_Position fs (fn_Pos fn) in
      \<lparr>df_Name = fn_Name fn, df_Filename = GetFilenameRelative env (pos_Filename pos),
       df_Line = pos_Line pos, df_Pos = fn_Pos fn\<rparr>)"

text \<open>
  The functions lines 169-192 of part_000 append an Issue for: the outer loop ranges
  over \<^verbatim>\<open>slices.Sorted(maps.Keys(byPkgPath))\<close>, the inner one over
  \<^verbatim>\<open>slices.Collect(maps.Keys(m))\<close>, which is in map order.
\<close>

definition reported_deadfunc ::
  "(ssa_Function \<Rightarrow> nat) \<Rightarrow> (string \<Rightarrow> bool) \<Rightarrow> string list \<Rightarrow> (int \<Rightarrow> Position) \<Rightarrow> groups \<Rightarrow>
   ssa_Function list"
where
  "reported_deadfunc ordF re gen fs grp =
     concat (map (\<lambda>pkgpath.
         if \<not> re pkgpath then []
         else filter (\<lambda>fn. pos_Filename (Fset_Position fs (fn_Pos fn)) \<notin> set gen)
                (rangeKeys ordF (lookupGroup grp pkgpath)))
       (sort (map fst grp)))"

definition runAnalysis_deadfunc ::
  "(ssa_Function \<Rightarrow> nat) \<Rightarrow> Env \<Rightarrow> (DeadfuncIssue list \<times> string option) run"
where
  "runAnalysis_deadfunc ordF env =
     (case Load env False of
        Inl err \<Rightarrow> Exited (''Load: '' @ err)
      | Inr ld \<Rightarrow>
          (case initial ld of
             [] \<Rightarrow> Exited ''no packages''
           | first # others \<Rightarrow>
               if printErrors ld > 0 then Exited ''packages contain errors''
               else (case Compile env (moduleFilter env first) of
                       Inl err \<Rightarrow> Exited (''-filter: '' @ err)
                     | Inr re \<Rightarrow>
                         if mains ld = 0 then Exited ''no main packages''
                         else Returned
                           (map (issueOf_deadfunc env (fset ld))
                              (reported_deadfunc ordF re (generated ld) (fset ld)
                                 (snd (byPkgPath (fset ld) (sourceFuncs ld)
                                    (reachablePosn (fset ld) (reachable ld), [])))),
                            None))))"

section \<open>A small program to run the analysis on\<close>

text \<open>
  A module \<^verbatim>\<open>app\<close> in the directory \<^verbatim>\<open>/w\<close> with a dependency \<^verbatim>\<open>other.org/dep\<close>. The file
  table gives each file a range of 100 positions and ten positions to a line.
\<close>

definition ex_file :: "int \<Rightarrow> string" where
  "ex_file p =
     (if p < 100 then ''/w/main.go''
      else if p < 200 then ''/w/internal/util/util.go''
      else if p < 300 then ''/w/zz_generated.go''
      else ''/go/pkg/mod/other.org/dep/dep.go'')"

definition ex_fset :: "int \<Rightarrow> Position" where
  "ex_fset p =
     \<lparr>pos_Filename = ex_file p, pos_Offset = p mod 100, pos_Line = (p mod 100) div 10 + 1,
      pos_Column = p mod 10 + 1\<rparr>"

definition fn_main :: ssa_Function where
  "fn_main = \<lparr>fn_Name = ''main'', fn_Pos = 20, fn_PkgPath = ''app''\<rparr>"

definition fn_used :: ssa_Function where
  "fn_used = \<lparr>fn_Name = ''used'', fn_Pos = 40, fn_PkgPath = ''app''\<rparr>"

definition fn_helper :: ssa_Function where
  "fn_helper = \<lparr>fn_Name = ''helper'', fn_Pos = 60, fn_PkgPath = ''app''\<rparr>"

definition fn_spare :: ssa_Function where
  "fn_spare = \<lparr>fn_Name = ''spare'', fn_Pos = 80, fn_PkgPath = ''app''\<rparr>"

definition fn_util :: ssa_Function where
  "fn_util = \<lparr>fn_Name = ''Trim'', fn_Pos = 120, fn_PkgPath = ''app/internal/util''\<rparr>"

definition fn_gen :: ssa_Function where
  "fn_gen = \<lparr>fn_Name = ''DeepCopy'', fn_Pos = 230, fn_PkgPath = ''app''\<rparr>"

definition fn_dep :: ssa_Function where
  "fn_dep = \<lparr>fn_Name = ''Unused'', fn_Pos = 310, fn_PkgPath = ''other.org/dep''\<rparr>"

text \<open>The synthetic package initializer of the IR: named init, without a position.\<close>

definition fn_pkginit :: ssa_Function where
  "fn_pkginit = \<lparr>fn_Name = ''init'', fn_Pos = 0, fn_PkgPath = ''app''\<rparr>"

text \<open>A declared method \<^verbatim>\<open>func (t T) init()\<close> that nothing calls.\<close>

definition fn_method_init :: ssa_Function where
  "fn_method_init = \<lparr>fn_Name = ''init'', fn_Pos = 90, fn_PkgPath = ''app''\<rparr>"



definition ex_program :: "ssa_Function list \<Rightarrow> Loaded" where
  "ex_program srcs =
     \<lparr>initial = [\<lparr>pkg_ID = ''app'', pkg_Module = Some ''app''\<rparr>,
                 \<lparr>pkg_ID = ''app/internal/util'', pkg_Module = Some ''app''\<rparr>],
      printErrors = 0,
      mains = 1,
      sourceFuncs = srcs,
      generated = [''/w/zz_generated.go''],
      reachable = [fn_pkginit, fn_main, fn_used],
      fset = ex_fset,
      fileName = ex_file\<rparr>"

definition ex_loaded :: Loaded where
  "ex_loaded = ex_program [fn_main, fn_used, fn_helper, fn_spare, fn_util, fn_gen, fn_dep]"

text \<open>
  A generated parser: from position 250 on, the file \<^verbatim>\<open>/w/zz_generated.go\<close> stands under a
  \<^verbatim>\<open>//line\<close> directive that names the grammar it was generated from, so the Position of
  \<^verbatim>\<open>yyParse\<close>, declared there, carries the file name of the grammar.
\<close>

definition ex_fset_line :: "int \<Rightarrow> Position" where
  "ex_fset_line p =
     (if 250 \<le> p \<and> p < 300
      then \<lparr>pos_Filename = ''/w/grammar.y'', pos_Offset = p mod 100,
            pos_Line = (p mod 100) div 10 + 36, pos_Column = p mod 10 + 1\<rparr>
      else ex_fset p)"

definition fn_parse :: ssa_Function where
  "fn_parse = \<lparr>fn_Name = ''yyParse'', fn_Pos = 260, fn_PkgPath = ''app''\<rparr>"

definition ex_loaded_line :: Loaded where
  "ex_loaded_line = (ex_program [fn_main, fn_used, fn_gen, fn_parse])\<lparr>fset := ex_fset_line\<rparr>"

text \<open>
  Stand-ins for the libraries on the inputs used here; they are not embeddings of the
  libraries. \<open>ex_Compile\<close> answers the patterns made of letters, digits, underscore,
  slash and hyphen: \<^verbatim>\<open>lit\<close> matches the strings that contain \<open>lit\<close>,
  \<^verbatim>\<open>^lit\<close> the strings that start with it, and when the pattern ends in a backslash and
  b a word boundary must follow \<open>lit\<close>; the empty pattern matches every string; an
  opening parenthesis alone is rejected with the text of \<^verbatim>\<open>regexp.Compile\<close>; any other
  pattern is outside the stand-in and is rejected too. \<open>ex_Rel\<close> is \<^verbatim>\<open>filepath.Rel\<close> on
  slash-separated paths without \<^verbatim>\<open>.\<close> and \<^verbatim>\<open>..\<close> components: the common leading
  components are dropped, every remaining component of the base becomes \<^verbatim>\<open>..\<close>, and a
  base and a target of which only one is absolute give the error.
\<close>

definition isWordChar :: "char \<Rightarrow> bool" where
  "isWordChar c =
     (c \<in> set ''0123456789ABCDEFGHIJKLMNOPQRSTUVWXYZ_abcdefghijklmnopqrstuvwxyz'')"

definition isLiteral :: "string \<Rightarrow> bool" where
  "isLiteral lit = list_all (\<lambda>c. isWordChar c \<or> c = CHR ''/'' \<or> c = CHR ''-'') lit"

fun containsAt :: "string \<Rightarrow> string \<Rightarrow> bool" where
  "containsAt lit [] = (lit = [])"
| "containsAt lit (c # cs) = (take (length lit) (c # cs) = lit \<or> containsAt lit cs)"

definition ex_Compile :: "string \<Rightarrow> string + (string \<Rightarrow> bool)" where
  "ex_Compile pat =
     (case pat of
        [] \<Rightarrow> Inr (\<lambda>s. True)
      | c # rest \<Rightarrow>
          if pat = ''(''
          then Inl ''error parsing regexp: missing closing ): `(`''

          else if c = CHR ''^''
          then (if 2 \<le> length rest \<and> drop (length rest - 2) rest = [CHR 0x5C, CHR ''b'']
                     \<and> isLiteral (take (length rest - 2) rest)
                then (let lit = take (length rest - 2) rest in
                      Inr (\<lambda>s. take (length lit) s = lit \<and>
                         ((lit \<noteq> [] \<and> isWordChar (last lit)) \<noteq>
                          (length lit < length s \<and> isWordChar (s ! length lit)))))
                else if isLiteral rest then Inr (\<lambda>s. take (length rest) s = rest)
                else Inl (''outside the stand-in: '' @ pat))
          else if isLiteral pat then Inr (\<lambda>s. containsAt pat s)
          else Inl (''outside the stand-in: '' @ pat))"

fun components :: "string \<Rightarrow> string \<Rightarrow> string list" where
  "components cur [] = (if cur = [] then [] else [cur])"
| "components cur (c # cs) =
     (if c = CHR ''/'' then (if cur = [] then components [] cs else cur # components [] cs)
      else components (cur @ [c]) cs)"

fun dropCommon :: "string list \<Rightarrow> string list \<Rightarrow> string list \<times> string list" where
  "dropCommon (a # as) (b # bs) = (if a = b then dropCommon as bs else (a # as, b # bs))"
| "dropCommon as bs = (as, bs)"

fun joinPath :: "string list \<Rightarrow> string" where
  "joinPath [] = []"
| "joinPath [a] = a"
| "joinPath (a # b # rest) = a @ ''/'' @ joinPath (b # rest)"

definition isAbs :: "string \<Rightarrow> bool" where
  "isAbs path = (case path of [] \<Rightarrow> False | c # cs \<Rightarrow> c = CHR ''/'')"

definition ex_Rel :: "string \<Rightarrow> string \<Rightarrow> string + string" where
  "ex_Rel base targ =
     (if isAbs base = isAbs targ
      then (case dropCommon (components [] base) (components [] targ) of
              (b, t) \<Rightarrow>
                (let r = replicate (length b) ''..'' @ t in
                 Inr (if r = [] then ''.'' else joinPath r)))
      else Inl (''Rel: can't make '' @ targ @ '' relative to '' @ base))"

definition ex_env :: "Loaded \<Rightarrow> Env" where
  "ex_env ld =
     \<lparr>Load = (\<lambda>tests. Inr ld),
      Compile = ex_Compile,
      QuoteMeta = (\<lambda>s. s),
      Getwd = (''/w'', None),
      filepath_Rel = ex_Rel\<rparr>"

text \<open>The same process when \<^verbatim>\<open>os.Getwd\<close> failed at start.\<close>

definition ex_env_nocwd :: "Loaded \<Rightarrow> Env" where
  "ex_env_nocwd ld = (ex_env ld)\<lparr>Getwd := ([], Some ''getwd: no such file or directory'')\<rparr>"

text \<open>
  Traversal orders of the maps: in order of first insertion; the package paths with
  \<^verbatim>\<open>app\<close> last; the functions by descending position.
\<close>

definition ord_insertion :: "'k \<Rightarrow> nat" where
  "ord_insertion k = 0"

definition ord_pkg_desc :: "string \<Rightarrow> nat" where
  "ord_pkg_desc pkgpath = (if pkgpath = ''app'' then 1 else 0)"

definition ord_fn_desc :: "ssa_Function \<Rightarrow> nat" where
  "ord_fn_desc fn = nat (1000 - fn_Pos fn)"

section \<open>Map traversal orders\<close>

text \<open>
  A ranking visits every key once, and every order of the keys of a map is the traversal
  of a ranking.
\<close>

lemma rangeKeys_visits_each_key_once: "mset (rangeKeys rank ks) = mset ks"
  by (simp add: rangeKeys_def)

lemma visitRank_nth:
  "distinct order \<Longrightarrow> i < length order \<Longrightarrow> visitRank order (order ! i) = i"
proof (induction order arbitrary: i)
  case Nil
  then show ?case by simp
next
  case (Cons a order)
  show ?case
  proof (cases i)
    case 0
    then show ?thesis by (simp add: visitRank_def)
  next
    case (Suc j)
    then have "order ! j \<noteq> a" using Cons.prems by auto
    then show ?thesis using Suc Cons by (simp add: visitRank_def)
  qed
qed

lemma visitRank_inj:
  assumes "distinct order" "x \<in> set order" "y \<in> set order" "visitRank order x = visitRank order y"
  shows "x = y"
proof -
  obtain i where i: "i < length order" "order ! i = x" using assms(2) by (auto simp: in_set_conv_nth)
  obtain j where j: "j < length order" "order ! j = y" using assms(3) by (auto simp: in_set_conv_nth)
  have "i = j" using visitRank_nth[OF assms(1) i(1)] visitRank_nth[OF assms(1) j(1)] i j assms(4)
    by simp
  then show ?thesis using i j by simp
qed

lemma visitRank_sorted: "distinct order \<Longrightarrow> sorted (map (visitRank order) order)"
proof -
  assume d: "distinct order"
  have "map (visitRank order) order = [0..<length order]"
    by (rule nth_equalityI) (simp_all add: visitRank_nth[OF d])
  then show ?thesis by simp
qed

lemma filter_eq_distinct:
  "distinct xs \<Longrightarrow> k \<in> set xs \<Longrightarrow> (\<And>x. x \<in> set xs \<Longrightarrow> P x \<longleftrightarrow> x = k) \<Longrightarrow> filter P xs = [k]"
proof (induction xs)
  case Nil
  then show ?case by simp
next
  case (Cons a xs)
  show ?case
  proof (cases "a = k")
    case True
    then have "filter P xs = []" using Cons.prems by (auto simp: filter_empty_conv)
    then show ?thesis using True Cons.prems by simp
  next
    case False
    then show ?thesis using Cons by auto
  qed
qed

lemma rangeKeys_any_order:
  assumes d: "distinct ks" and p: "mset order = mset ks"
  shows "rangeKeys (visitRank order) ks = order"
  unfolding rangeKeys_def
proof (rule properties_for_sort_key)
  have d': "distinct order" using d p by (metis mset_eq_imp_distinct_iff)
  have s: "set order = set ks" using p by (rule mset_eq_setD)
  show "mset order = mset ks" by (rule p)
  show "sorted (map (visitRank order) order)" by (rule visitRank_sorted[OF d'])
  show "\<And>k. k \<in> set order \<Longrightarrow>
      filter (\<lambda>x. visitRank order k = visitRank order x) order
        = filter (\<lambda>x. visitRank order k = visitRank order x) ks"
  proof -
    fix k
    assume k: "k \<in> set order"
    have a: "filter (\<lambda>x. visitRank order k = visitRank order x) order = [k]"
      using d' k visitRank_inj[OF d'] by (intro filter_eq_distinct) auto
    have b: "filter (\<lambda>x. visitRank order k = visitRank order x) ks = [k]"
      using d k s visitRank_inj[OF d'] by (intro filter_eq_distinct) auto
    show "filter (\<lambda>x. visitRank order k = visitRank order x) order
        = filter (\<lambda>x. visitRank order k = visitRank order x) ks"
      using a b by simp
  qed
qed

section \<open>The resolver loop and the report loop\<close>

lemma groupInsert_keys: "set (map fst (groupInsert k fn g)) = insert k (set (map fst g))"
  by (induction k fn g rule: groupInsert.induct) auto

lemma groupInsert_distinct: "distinct (map fst g) \<Longrightarrow> distinct (map fst (groupInsert k fn g))"
proof (induction k fn g rule: groupInsert.induct)
  case (1 pkgpath fn)
  then show ?case by simp
next
  case (2 pkgpath fn k m rest)
  then show ?case using groupInsert_keys[of pkgpath fn rest] by auto
qed

lemma groupInsert_mset:
  "fn \<notin> set (grpFuncs g) \<Longrightarrow> mset (grpFuncs (groupInsert k fn g)) = add_mset fn (mset (grpFuncs g))"
  by (induction k fn g rule: groupInsert.induct) (auto simp: grpFuncs_def)

lemma groupInsert_pkg:
  "\<forall>(k, m) \<in> set g. \<forall>f \<in> set m. fn_PkgPath f = k \<Longrightarrow>
   \<forall>(k, m) \<in> set (groupInsert (fn_PkgPath fn) fn g). \<forall>f \<in> set m. fn_PkgPath f = k"
  by (induction "fn_PkgPath fn" fn g rule: groupInsert.induct) (auto split: if_splits)

lemma grp_inv_insert:
  assumes "grp_inv fs R g" and "posnOf fs fn \<notin> R"
  shows "grp_inv fs (insert (posnOf fs fn) R) (groupInsert (fn_PkgPath fn) fn g)"
proof -
  have notin: "fn \<notin> set (grpFuncs g)" using assms by (auto simp: grp_inv_def)
  have ms: "mset (grpFuncs (groupInsert (fn_PkgPath fn) fn g)) = mset (fn # grpFuncs g)"
    using groupInsert_mset[OF notin] by simp
  have st: "set (grpFuncs (groupInsert (fn_PkgPath fn) fn g)) = set (fn # grpFuncs g)"
    using ms by (rule mset_eq_setD)
  have "mset (map (posnOf fs) (grpFuncs (groupInsert (fn_PkgPath fn) fn g)))
      = mset (map (posnOf fs) (fn # grpFuncs g))"
    using arg_cong[OF ms, of "image_mset (posnOf fs)"] by simp
  then have d: "distinct (map (posnOf fs) (grpFuncs (groupInsert (fn_PkgPath fn) fn g)))
      = distinct (map (posnOf fs) (fn # grpFuncs g))"
    by (rule mset_eq_imp_distinct_iff)
  have d2: "distinct (map (posnOf fs) (fn # grpFuncs g))"
    using assms by (auto simp: grp_inv_def)
  show ?thesis
    unfolding grp_inv_def
    using assms groupInsert_distinct[of g "fn_PkgPath fn" fn] groupInsert_pkg[of g fn] d d2 st
    by (auto simp: grp_inv_def)
qed


lemma byPkgPath_inv:
  "grp_inv fs R g \<Longrightarrow>
   grp_inv fs (fst (byPkgPath fs srcs (R, g))) (snd (byPkgPath fs srcs (R, g)))"
proof (induction srcs arbitrary: R g)
  case Nil
  then show ?case by simp
next
  case (Cons a srcs)
  show ?case
  proof (cases "posnOf fs a \<in> R")
    case True
    then show ?thesis using Cons by (simp add: Let_def)
  next
    case False
    then show ?thesis using Cons.IH[OF grp_inv_insert[OF Cons.prems False]] by (simp add: Let_def)
  qed
qed

lemma byPkgPath_mset:
  "grp_inv fs R g \<Longrightarrow>
   mset (grpFuncs (snd (byPkgPath fs srcs (R, g)))) = mset (grpFuncs g) + mset (unreachable fs srcs R)"
proof (induction srcs arbitrary: R g)
  case Nil
  then show ?case by simp
next
  case (Cons a srcs)
  show ?case
  proof (cases "posnOf fs a \<in> R")
    case True
    then show ?thesis using Cons by (simp add: Let_def)
  next
    case False
    have notin: "a \<notin> set (grpFuncs g)" using Cons.prems False by (auto simp: grp_inv_def)
    show ?thesis
      using Cons.IH[OF grp_inv_insert[OF Cons.prems False]] False groupInsert_mset[OF notin]
      by (simp add: Let_def)
  qed
qed

lemma grp_inv_empty: "grp_inv fs R []"
  by (simp add: grp_inv_def grpFuncs_def)

lemma unreachable_set:
  "set (unreachable fs srcs R) =
     {F \<in> set srcs. posnOf fs F \<notin> R \<and> find (\<lambda>G. posnOf fs G = posnOf fs F) srcs = Some F}"
proof (induction srcs arbitrary: R)
  case Nil
  then show ?case by simp
next
  case (Cons a srcs)
  have in_rest: "\<And>F. find (\<lambda>G. posnOf fs G = posnOf fs F) srcs = Some F \<Longrightarrow> F \<in> set srcs"
    by (auto simp: find_Some_iff)
  show ?case
  proof (cases "posnOf fs a \<in> R")
    case True
    then show ?thesis using Cons.IH[of R] in_rest by auto
  next
    case False
    then show ?thesis using Cons.IH[of "insert (posnOf fs a) R"] in_rest by auto
  qed
qed




lemma mset_concat_map_perm:
  "mset xs = mset ys \<Longrightarrow> mset (concat (map f xs)) = mset (concat (map f ys))"
proof -
  assume a: "mset xs = mset ys"
  have "mset (concat (map f xs)) = (\<Sum>x\<in>#mset xs. mset (f x))"
    by (induction xs) auto
  also have "\<dots> = (\<Sum>x\<in>#mset ys. mset (f x))" using a by simp
  also have "\<dots> = mset (concat (map f ys))"
    by (induction ys) auto
  finally show ?thesis .
qed

lemma lookupGroup_member:
  "distinct (map fst g) \<Longrightarrow> (k, m) \<in> set g \<Longrightarrow> lookupGroup g k = m"
  by (simp add: lookupGroup_def)

lemma groups_filter_mset:
  "\<forall>(k, m) \<in> set g. \<forall>f \<in> set m. fn_PkgPath f = k \<Longrightarrow>
   mset (concat (map (\<lambda>(k, m). if \<not> filterAllows flt k then []
          else filter (\<lambda>fn. pos_Filename (posnOf fs fn) \<notin> set gen) (rangeKeys ordF m)) g))
   = mset (filter (survives flt gen fs) (grpFuncs g))"
proof (induction g)
  case Nil
  then show ?case by (simp add: grpFuncs_def)
next
  case (Cons km g)
  obtain k m where km: "km = (k, m)" by (cases km)
  have pk: "\<forall>f \<in> set m. fn_PkgPath f = k" using Cons.prems km by auto
  have hd_eq: "mset (if \<not> filterAllows flt k then []
          else filter (\<lambda>fn. pos_Filename (posnOf fs fn) \<notin> set gen) (rangeKeys ordF m))
        = mset (filter (survives flt gen fs) m)"
  proof (cases "filterAllows flt k")
    case True
    have "filter (survives flt gen fs) m = filter (\<lambda>fn. pos_Filename (posnOf fs fn) \<notin> set gen) m"
      using pk True by (intro filter_cong) auto
    then show ?thesis using True by (simp add: rangeKeys_def)
  next
    case False
    have "filter (survives flt gen fs) m = []"
      using pk False by (auto simp: filter_empty_conv)
    then show ?thesis using False by simp
  qed
  have "\<forall>(k, m) \<in> set g. \<forall>f \<in> set m. fn_PkgPath f = k" using Cons.prems by auto
  from Cons.IH[OF this] hd_eq show ?case
    by (simp add: km grpFuncs_def)
qed

lemma reported_mset:
  assumes d: "distinct (map fst g)"
    and pk: "\<forall>(k, m) \<in> set g. \<forall>f \<in> set m. fn_PkgPath f = k"
  shows "mset (reported ordP ordF flt gen fs g) = mset (filter (survives flt gen fs) (grpFuncs g))"
proof -
  let ?body = "\<lambda>pkgpath. if \<not> filterAllows flt pkgpath then []
         else filter (\<lambda>fn. pos_Filename (posnOf fs fn) \<notin> set gen)
                (rangeKeys ordF (lookupGroup g pkgpath))"
  have "mset (reported ordP ordF flt gen fs g) = mset (concat (map ?body (map fst g)))"
    unfolding reported_def rangeKeys_def
    by (rule mset_concat_map_perm) simp
  also have "map ?body (map fst g) = map (\<lambda>(k, m). if \<not> filterAllows flt k then []
          else filter (\<lambda>fn. pos_Filename (posnOf fs fn) \<notin> set gen) (rangeKeys ordF m)) g"
    using lookupGroup_member[OF d] by (auto simp: rangeKeys_def)
  also have "mset (concat \<dots>) = mset (filter (survives flt gen fs) (grpFuncs g))"
    by (rule groups_filter_mset[OF pk])
  finally show ?thesis .
qed

lemma buildIssues_reported:
  "buildIssues ordP ordF env flt gen fs g = map (issueOf env fs) (reported ordP ordF flt gen fs g)"
proof -
  have inner: "\<And>xs. concat (map (\<lambda>fn. if pos_Filename (posnOf fs fn) \<in> set gen then []
                 else [issueOf env fs fn]) xs)
        = map (issueOf env fs) (filter (\<lambda>fn. pos_Filename (posnOf fs fn) \<notin> set gen) xs)"
    subgoal for xs by (induction xs) auto
    done
  show ?thesis
    unfolding buildIssues_def reported_def inner
    by (simp add: map_concat comp_def if_distrib[of "map (issueOf env fs)"] cong: if_cong)
qed

text \<open>The resolver followed by the report, for a reachable set \<open>R\<close>.\<close>

lemma dead_mset:
  "mset (reported ordP ordF flt gen fs (snd (byPkgPath fs srcs (R, []))))
   = mset (filter (survives flt gen fs) (unreachable fs srcs R))"
proof -
  have inv: "grp_inv fs (fst (byPkgPath fs srcs (R, []))) (snd (byPkgPath fs srcs (R, [])))"
    by (rule byPkgPath_inv[OF grp_inv_empty])
  have "mset (grpFuncs (snd (byPkgPath fs srcs (R, [])))) = mset (unreachable fs srcs R)"
    using byPkgPath_mset[OF grp_inv_empty, where fs = fs and R = R and srcs = srcs]
    by (simp add: grpFuncs_def)
  then have "mset (filter (survives flt gen fs) (grpFuncs (snd (byPkgPath fs srcs (R, [])))))
      = mset (filter (survives flt gen fs) (unreachable fs srcs R))"
    by (simp only: mset_filter)
  moreover have "mset (reported ordP ordF flt gen fs (snd (byPkgPath fs srcs (R, []))))
      = mset (filter (survives flt gen fs) (grpFuncs (snd (byPkgPath fs srcs (R, [])))))"
    using inv by (intro reported_mset) (auto simp: grp_inv_def)
  ultimately show ?thesis by simp
qed


lemma dead_set:
  "set (reported ordP ordF flt gen fs (snd (byPkgPath fs srcs (R, [])))) =
     {F \<in> set srcs. posnOf fs F \<notin> R \<and> find (\<lambda>G. posnOf fs G = posnOf fs F) srcs = Some F \<and>
        pos_Filename (posnOf fs F) \<notin> set gen \<and> filterAllows flt (fn_PkgPath F)}"
proof -
  have "set (reported ordP ordF flt gen fs (snd (byPkgPath fs srcs (R, []))))
      = set (filter (survives flt gen fs) (unreachable fs srcs R))"
    using dead_mset[of ordP ordF flt gen fs srcs R] by (rule mset_eq_setD)
  then show ?thesis using unreachable_set[of fs srcs R] by auto
qed

section \<open>The claims\<close>

text \<open>
  C10. For every file name the relative-path helper (\<open>Rel\<close> in deadcode.go,
  \<open>GetFilenameRelative\<close> in part_000) returns a string and has no error result: the
  path relative to the working directory read once at start when \<^verbatim>\<open>filepath.Rel\<close>
  succeeds, the file name unchanged when it fails. Both helpers are the same function, and
  the file name of an Issue is the helper's result.
\<close>

theorem Rel_relative_or_unchanged:
  "(\<forall>rel. filepath_Rel env (cwd env) filename = Inr rel \<longrightarrow> Rel env filename = rel) \<and>
   (\<forall>err. filepath_Rel env (cwd env) filename = Inl err \<longrightarrow> Rel env filename = filename) \<and>
   GetFilenameRelative env filename = Rel env filename \<and>
   cwd env = fst (Getwd env) \<and>
   Filename (issueOf env fs fn) = Rel env (pos_Filename (posnOf fs fn))"
  by (simp add: Rel_def GetFilenameRelative_def cwd_def issueOf_def Let_def)

theorem Rel_relative_or_unchanged_witness:
  "filepath_Rel (ex_env ex_loaded) (cwd (ex_env ex_loaded)) ''/w/main.go'' = Inr ''main.go'' \<and>
   Rel (ex_env ex_loaded) ''/w/main.go'' = ''main.go'' \<and>
   cwd (ex_env_nocwd ex_loaded) = [] \<and>
   filepath_Rel (ex_env_nocwd ex_loaded) (cwd (ex_env_nocwd ex_loaded)) ''/w/main.go''
     = Inl ''Rel: can't make /w/main.go relative to '' \<and>
   Rel (ex_env_nocwd ex_loaded) ''/w/main.go'' = ''/w/main.go''"
proof -
  have ok: "filepath_Rel (ex_env ex_loaded) (cwd (ex_env ex_loaded)) ''/w/main.go'' = Inr ''main.go''"
    by code_simp
  have c: "cwd (ex_env_nocwd ex_loaded) = []"
    by code_simp
  have bad: "filepath_Rel (ex_env_nocwd ex_loaded) (cwd (ex_env_nocwd ex_loaded)) ''/w/main.go''
     = Inl ''Rel: can't make /w/main.go relative to ''"
    by code_simp
  have r1: "Rel (ex_env ex_loaded) ''/w/main.go'' = ''main.go''"
    using Rel_relative_or_unchanged[of "ex_env ex_loaded" "''/w/main.go''"] ok by blast
  have r2: "Rel (ex_env_nocwd ex_loaded) ''/w/main.go'' = ''/w/main.go''"
    using Rel_relative_or_unchanged[of "ex_env_nocwd ex_loaded" "''/w/main.go''"] bad by blast
  show ?thesis using ok c bad r1 r2 by blast
qed

subsection \<open>The shape of a run\<close>

lemma deadIssues_deadFuncs:
  "deadIssues ordP ordF env flt ld = map (issueOf env (fset ld)) (deadFuncs ordP ordF flt ld)"
  by (simp add: deadIssues_def deadFuncs_def buildIssues_reported)

lemma runAnalysis_cases:
  "runAnalysis ordP ordF env s =
     (case Load env (Test s) of
        Inl err \<Rightarrow> ([], Some (''Load: '' @ err))
      | Inr ld \<Rightarrow>
          if initial ld = [] then ([], Some ''no find packages'')
          else if 0 < printErrors ld then ([], Some ''packages contain errors'')
          else (case compileFilter env (Filter s) of
                  Inl msg \<Rightarrow> ([], Some msg)
                | Inr flt \<Rightarrow>
                    if mains ld = 0 then ([], Some ''no find main packages'')
                    else (deadIssues ordP ordF env flt ld, None)))"
  by (simp add: runAnalysis_def Let_def split: sum.splits)

text \<open>
  The fatal conditions of \<open>runAnalysis\<close> in deadcode.go (the load fails, no package is
  loaded, the packages contain errors, a filter is set and does not compile, no main
  package is found): each returns one error value and the nil Issue list, and whenever
  an error is returned the Issue list is empty.
\<close>

theorem runAnalysis_fatal_conditions:
  "(\<forall>err. Load env (Test s) = Inl err \<longrightarrow>
      runAnalysis ordP ordF env s = ([], Some (''Load: '' @ err))) \<and>
   (\<forall>ld. Load env (Test s) = Inr ld \<and> initial ld = [] \<longrightarrow>
      runAnalysis ordP ordF env s = ([], Some ''no find packages'')) \<and>
   (\<forall>ld. Load env (Test s) = Inr ld \<and> initial ld \<noteq> [] \<and> 0 < printErrors ld \<longrightarrow>
      runAnalysis ordP ordF env s = ([], Some ''packages contain errors'')) \<and>
   (\<forall>ld err. Load env (Test s) = Inr ld \<and> initial ld \<noteq> [] \<and> printErrors ld = 0 \<and>
        Filter s \<noteq> [] \<and> Compile env (Filter s) = Inl err \<longrightarrow>
      runAnalysis ordP ordF env s = ([], Some (''failed create filter: '' @ err))) \<and>
   (\<forall>ld flt. Load env (Test s) = Inr ld \<and> initial ld \<noteq> [] \<and> printErrors ld = 0 \<and>
        compileFilter env (Filter s) = Inr flt \<and> mains ld = 0 \<longrightarrow>
      runAnalysis ordP ordF env s = ([], Some ''no find main packages'')) \<and>
   (\<forall>ld. Load env (Test s) = Inr ld \<and>
        (initial ld = [] \<or> 0 < printErrors ld \<or>
         (Filter s \<noteq> [] \<and> (\<exists>err. Compile env (Filter s) = Inl err)) \<or> mains ld = 0) \<longrightarrow>
      (\<exists>e. runAnalysis ordP ordF env s = ([], Some e))) \<and>
   (snd (runAnalysis ordP ordF env s) \<noteq> None \<longrightarrow> fst (runAnalysis ordP ordF env s) = [])"
proof -
  have a: "\<forall>err. Load env (Test s) = Inl err \<longrightarrow>
      runAnalysis ordP ordF env s = ([], Some (''Load: '' @ err))"
    by (simp add: runAnalysis_cases)
  have b: "\<forall>ld. Load env (Test s) = Inr ld \<and> initial ld = [] \<longrightarrow>
      runAnalysis ordP ordF env s = ([], Some ''no find packages'')"
    by (simp add: runAnalysis_cases)
  have c: "\<forall>ld. Load env (Test s) = Inr ld \<and> initial ld \<noteq> [] \<and> 0 < printErrors ld \<longrightarrow>
      runAnalysis ordP ordF env s = ([], Some ''packages contain errors'')"
    by (simp add: runAnalysis_cases)
  have d: "\<forall>ld err. Load env (Test s) = Inr ld \<and> initial ld \<noteq> [] \<and> printErrors ld = 0 \<and>
        Filter s \<noteq> [] \<and> Compile env (Filter s) = Inl err \<longrightarrow>
      runAnalysis ordP ordF env s = ([], Some (''failed create filter: '' @ err))"
    by (simp add: runAnalysis_cases compileFilter_def)
  have e: "\<forall>ld flt. Load env (Test s) = Inr ld \<and> initial ld \<noteq> [] \<and> printErrors ld = 0 \<and>
        compileFilter env (Filter s) = Inr flt \<and> mains ld = 0 \<longrightarrow>
      runAnalysis ordP ordF env s = ([], Some ''no find main packages'')"
    by (simp add: runAnalysis_cases)
  have f: "\<forall>ld. Load env (Test s) = Inr ld \<and>
        (initial ld = [] \<or> 0 < printErrors ld \<or>
         (Filter s \<noteq> [] \<and> (\<exists>err. Compile env (Filter s) = Inl err)) \<or> mains ld = 0) \<longrightarrow>
      (\<exists>e. runAnalysis ordP ordF env s = ([], Some e))"
    by (auto simp: runAnalysis_cases compileFilter_def split: sum.splits)
  have g: "snd (runAnalysis ordP ordF env s) \<noteq> None \<longrightarrow> fst (runAnalysis ordP ordF env s) = []"
    by (simp add: runAnalysis_cases split: sum.splits)
  from a b c d e f g show ?thesis by blast
qed

theorem runAnalysis_fatal_conditions_witness:
  "runAnalysis ord_insertion ord_insertion
      ((ex_env ex_loaded)\<lparr>Load := \<lambda>tests. Inl ''go list failed''\<rparr>) \<lparr>Test = False, Filter = []\<rparr>
     = ([], Some ''Load: go list failed'') \<and>
   runAnalysis ord_insertion ord_insertion (ex_env (ex_loaded\<lparr>initial := []\<rparr>))
      \<lparr>Test = False, Filter = []\<rparr> = ([], Some ''no find packages'') \<and>
   runAnalysis ord_insertion ord_insertion (ex_env (ex_loaded\<lparr>printErrors := 2\<rparr>))
      \<lparr>Test = False, Filter = []\<rparr> = ([], Some ''packages contain errors'') \<and>
   runAnalysis ord_insertion ord_insertion (ex_env ex_loaded) \<lparr>Test = False, Filter = ''(''\<rparr>
     = ([], Some ''failed create filter: error parsing regexp: missing closing ): `(`'') \<and>
   runAnalysis ord_insertion ord_insertion (ex_env (ex_loaded\<lparr>mains := 0\<rparr>))
      \<lparr>Test = False, Filter = []\<rparr> = ([], Some ''no find main packages'')"
proof -
  let ?s = "\<lparr>Test = False, Filter = []\<rparr>"
  let ?o = "ord_insertion :: string \<Rightarrow> nat"
  let ?f = "ord_insertion :: ssa_Function \<Rightarrow> nat"
  have h1: "Load ((ex_env ex_loaded)\<lparr>Load := \<lambda>tests. Inl ''go list failed''\<rparr>) (Test ?s)
      = Inl ''go list failed''"
    by simp
  have h2: "Load (ex_env (ex_loaded\<lparr>initial := []\<rparr>)) (Test ?s) = Inr (ex_loaded\<lparr>initial := []\<rparr>)
      \<and> initial (ex_loaded\<lparr>initial := []\<rparr>) = []"
    by (simp add: ex_env_def)
  have h3: "Load (ex_env (ex_loaded\<lparr>printErrors := 2\<rparr>)) (Test ?s) = Inr (ex_loaded\<lparr>printErrors := 2\<rparr>)
      \<and> initial (ex_loaded\<lparr>printErrors := 2\<rparr>) \<noteq> [] \<and> 0 < printErrors (ex_loaded\<lparr>printErrors := 2\<rparr>)"
    by (simp add: ex_env_def ex_loaded_def ex_program_def)
  have h4: "Load (ex_env ex_loaded) (Test \<lparr>Test = False, Filter = ''(''\<rparr>) = Inr ex_loaded \<and>
      initial ex_loaded \<noteq> [] \<and> printErrors ex_loaded = 0 \<and>
      Filter \<lparr>Test = False, Filter = ''(''\<rparr> \<noteq> [] \<and>
      Compile (ex_env ex_loaded) (Filter \<lparr>Test = False, Filter = ''(''\<rparr>)
        = Inl ''error parsing regexp: missing closing ): `(`''"
    by (simp add: ex_env_def ex_loaded_def ex_program_def ex_Compile_def)
  have h5: "Load (ex_env (ex_loaded\<lparr>mains := 0\<rparr>)) (Test ?s) = Inr (ex_loaded\<lparr>mains := 0\<rparr>) \<and>
      initial (ex_loaded\<lparr>mains := 0\<rparr>) \<noteq> [] \<and> printErrors (ex_loaded\<lparr>mains := 0\<rparr>) = 0 \<and>
      compileFilter (ex_env (ex_loaded\<lparr>mains := 0\<rparr>)) (Filter ?s) = Inr None \<and>
      mains (ex_loaded\<lparr>mains := 0\<rparr>) = 0"
    by (simp add: ex_env_def ex_loaded_def ex_program_def compileFilter_def)
  note t = runAnalysis_fatal_conditions
  have r1: "runAnalysis ?o ?f ((ex_env ex_loaded)\<lparr>Load := \<lambda>tests. Inl ''go list failed''\<rparr>) ?s
      = ([], Some (''Load: '' @ ''go list failed''))"
    using t[of "(ex_env ex_loaded)\<lparr>Load := \<lambda>tests. Inl ''go list failed''\<rparr>" ?s ?o ?f] h1 by blast
  have r2: "runAnalysis ?o ?f (ex_env (ex_loaded\<lparr>initial := []\<rparr>)) ?s = ([], Some ''no find packages'')"
    using t[of "ex_env (ex_loaded\<lparr>initial := []\<rparr>)" ?s ?o ?f] h2 by blast
  have r3: "runAnalysis ?o ?f (ex_env (ex_loaded\<lparr>printErrors := 2\<rparr>)) ?s
      = ([], Some ''packages contain errors'')"
    using t[of "ex_env (ex_loaded\<lparr>printErrors := 2\<rparr>)" ?s ?o ?f] h3 by blast
  have r4: "runAnalysis ?o ?f (ex_env ex_loaded) \<lparr>Test = False, Filter = ''(''\<rparr>
      = ([], Some (''failed create filter: '' @ ''error parsing regexp: missing closing ): `(`''))"
    using t[of "ex_env ex_loaded" "\<lparr>Test = False, Filter = ''(''\<rparr>" ?o ?f] h4 by blast
  have r5: "runAnalysis ?o ?f (ex_env (ex_loaded\<lparr>mains := 0\<rparr>)) ?s
      = ([], Some ''no find main packages'')"
    using t[of "ex_env (ex_loaded\<lparr>mains := 0\<rparr>)" ?s ?o ?f] h5 by blast
  from r1 r2 r3 r4 r5 show ?thesis by simp
qed

text \<open>
  C6. The claim asks that every fatal condition returns one error value and no Issue
  list to the caller. \<open>runAnalysis\<close> of deadcode.go does so (theorem
  \<open>runAnalysis_fatal_conditions\<close> above). The variant of part_000 does not return at all
  on these conditions: lines 81-115 end each of them in \<^verbatim>\<open>log.Fatalf\<close>, which exits the
  process, although the function is declared to return an error and its caller tests it.
\<close>

theorem deadfunc_exits_on_fatal_conditions:
  "runAnalysis_deadfunc ord_insertion ((ex_env ex_loaded)\<lparr>Load := \<lambda>tests. Inl ''go list failed''\<rparr>)
     = Exited ''Load: go list failed'' \<and>
   runAnalysis_deadfunc ord_insertion (ex_env (ex_loaded\<lparr>initial := []\<rparr>))
     = Exited ''no packages'' \<and>
   runAnalysis_deadfunc ord_insertion (ex_env (ex_loaded\<lparr>printErrors := 2\<rparr>))
     = Exited ''packages contain errors'' \<and>
   runAnalysis_deadfunc ord_insertion (ex_env (ex_loaded\<lparr>mains := 0\<rparr>))
     = Exited ''no main packages''"
  by code_simp

lemma runAnalysis_provenance:
  assumes "Load env (Test s) = Inr ld" and "compileFilter env (Filter s) = Inr flt"
  shows "fst (runAnalysis ordP ordF env s) =
     map (issueOf env (fset ld))
       (if snd (runAnalysis ordP ordF env s) = None then deadFuncs ordP ordF flt ld else [])"
  using assms by (simp add: runAnalysis_cases deadIssues_deadFuncs)

lemma reported_not_generated:
  "F \<in> set (reported ordP ordF flt gen fs grp) \<Longrightarrow> pos_Filename (posnOf fs F) \<notin> set gen"
  by (auto simp: reported_def split: if_splits)

text \<open>
  What line 212 does exclude: a function whose Position carries a file name of the
  generated set. Where no \<^verbatim>\<open>//line\<close> directive stands before a declaration, the file
  name of its Position is the name of its file, and the functions of generated files are
  left out.
\<close>

lemma position_in_generated_not_reported:
  "\<forall>F. pos_Filename (posnOf (fset ld) F) \<in> set (generated ld) \<longrightarrow>
     F \<notin> set (deadFuncs ordP ordF flt ld)"
  using reported_not_generated unfolding deadFuncs_def by blast

lemma deadFuncs_declared: "set (deadFuncs ordP ordF flt ld) \<subseteq> set (sourceFuncs ld)"
  unfolding deadFuncs_def dead_set by blast

lemma generated_files_excluded_without_line_directives:
  assumes "\<forall>F \<in> set (sourceFuncs ld). pos_Filename (posnOf (fset ld) F) = fileName ld (fn_Pos F)"
  shows "\<forall>F. fileName ld (fn_Pos F) \<in> set (generated ld) \<longrightarrow>
     F \<notin> set (deadFuncs ordP ordF flt ld)"
proof (intro allI impI notI)
  fix F
  assume g: "fileName ld (fn_Pos F) \<in> set (generated ld)"
    and d: "F \<in> set (deadFuncs ordP ordF flt ld)"
  from d have "F \<in> set (sourceFuncs ld)" using deadFuncs_declared by blast
  with assms g have "pos_Filename (posnOf (fset ld) F) \<in> set (generated ld)" by simp
  with d position_in_generated_not_reported show False by blast
qed

lemma generated_file_without_line_directive_excluded:
  "fileName ex_loaded (fn_Pos fn_gen) \<in> set (generated ex_loaded) \<and>
   fn_gen \<in> set (sourceFuncs ex_loaded) \<and>
   posnOf (fset ex_loaded) fn_gen \<notin> reachablePosn (fset ex_loaded) (reachable ex_loaded) \<and>
   fn_gen \<notin> set (deadFuncs ord_insertion ord_insertion None ex_loaded)"
  by code_simp

text \<open>
  C7. The claim asks that every declared function whose file is in the generated-file set
  is left out of the output. The code enters a generated file under the name of the file
  (line 167) and tests the file name of the function's Position (lines 210-212), which a
  \<^verbatim>\<open>//line\<close> directive changes; part_000 does the same (lines 136 and 179-181). Here \<^verbatim>\<open>DeepCopy\<close> and \<^verbatim>\<open>yyParse\<close> are declared in the
  generated file \<^verbatim>\<open>/w/zz_generated.go\<close> and neither is reachable; \<^verbatim>\<open>DeepCopy\<close> is left out,
  \<^verbatim>\<open>yyParse\<close>, declared after the directive, is reported under the grammar's name.
\<close>

theorem generated_file_with_line_directive_reported:
  "fn_parse \<in> set (sourceFuncs ex_loaded_line) \<and>
   fileName ex_loaded_line (fn_Pos fn_parse) = ''/w/zz_generated.go'' \<and>
   fileName ex_loaded_line (fn_Pos fn_gen) = ''/w/zz_generated.go'' \<and>
   generated ex_loaded_line = [''/w/zz_generated.go''] \<and>
   pos_Filename (posnOf (fset ex_loaded_line) fn_parse) = ''/w/grammar.y'' \<and>
   runAnalysis ord_insertion ord_insertion (ex_env ex_loaded_line) \<lparr>Test = False, Filter = []\<rparr>
     = ([\<lparr>Func = ''yyParse'', Filename = ''grammar.y'', Line = 42\<rparr>], None)"
  by code_simp








text \<open>
  C5, as stated, fails: a declared function named \<^verbatim>\<open>init\<close> (here a method) that is not
  among the functions the call graph reaches is reported, although the package
  initializer itself is in the reachable set.
\<close>

theorem counterexample_unlisted_init_reported:
  "fn_Name fn_method_init = ''init'' \<and>
   fn_pkginit \<in> set (reachable (ex_program [fn_main, fn_used, fn_method_init])) \<and>
   runAnalysis ord_insertion ord_insertion (ex_env (ex_program [fn_main, fn_used, fn_method_init]))
     \<lparr>Test = False, Filter = []\<rparr>
     = ([\<lparr>Func = ''init'', Filename = ''main.go'', Line = 10\<rparr>], None)"
  by code_simp

text \<open>
  C5, amended. Every function the call graph reaches that has a valid position or is
  named \<^verbatim>\<open>init\<close> has its position placed in the reachable set (the zero position when it
  has none), and no function at such a position is reported. The name alone exempts
  nothing: a declared function named \<^verbatim>\<open>init\<close> whose position is not in the reachable set
  is reported under the same conditions as any other function.
\<close>

theorem reachable_positions_not_reported:
  "(\<forall>fn \<in> set reach. IsValid (fn_Pos fn) \<or> fn_Name fn = ''init'' \<longrightarrow>
      posnOf fs fn \<in> reachablePosn fs reach \<and>
      (\<forall>G \<in> set (reported ordP ordF flt gen fs
                   (snd (byPkgPath fs srcs (reachablePosn fs reach, [])))).
         posnOf fs G \<noteq> posnOf fs fn)) \<and>
   (\<forall>F \<in> set srcs.
      fn_Name F = ''init'' \<and> posnOf fs F \<notin> reachablePosn fs reach \<and>
      find (\<lambda>G. posnOf fs G = posnOf fs F) srcs = Some F \<and>
      pos_Filename (posnOf fs F) \<notin> set gen \<and> filterAllows flt (fn_PkgPath F) \<longrightarrow>
      F \<in> set (reported ordP ordF flt gen fs
                 (snd (byPkgPath fs srcs (reachablePosn fs reach, [])))))"
proof -
  let ?out = "reported ordP ordF flt gen fs (snd (byPkgPath fs srcs (reachablePosn fs reach, [])))"
  have out: "\<forall>G \<in> set ?out. posnOf fs G \<notin> reachablePosn fs reach"
    unfolding dead_set by simp
  have a: "\<forall>fn \<in> set reach. IsValid (fn_Pos fn) \<or> fn_Name fn = ''init'' \<longrightarrow>
      posnOf fs fn \<in> reachablePosn fs reach \<and> (\<forall>G \<in> set ?out. posnOf fs G \<noteq> posnOf fs fn)"
  proof (intro ballI impI)
    fix fn
    assume m: "fn \<in> set reach" and v: "IsValid (fn_Pos fn) \<or> fn_Name fn = ''init''"
    have "posnOf fs fn \<in> reachablePosn fs reach"
      using m v unfolding reachablePosn_def by (auto simp: image_iff)
    with out show "posnOf fs fn \<in> reachablePosn fs reach \<and>
        (\<forall>G \<in> set ?out. posnOf fs G \<noteq> posnOf fs fn)"
      by metis
  qed
  have b: "\<forall>F \<in> set srcs.
      fn_Name F = ''init'' \<and> posnOf fs F \<notin> reachablePosn fs reach \<and>
      find (\<lambda>G. posnOf fs G = posnOf fs F) srcs = Some F \<and>
      pos_Filename (posnOf fs F) \<notin> set gen \<and> filterAllows flt (fn_PkgPath F) \<longrightarrow>
      F \<in> set ?out"
    unfolding dead_set by simp
  from a b show ?thesis by blast
qed

theorem reachable_positions_not_reported_witness:
  "fn_pkginit \<in> set [fn_pkginit, fn_main, fn_used] \<and> fn_Name fn_pkginit = ''init'' \<and>
   \<not> IsValid (fn_Pos fn_pkginit) \<and>
   posnOf ex_fset fn_pkginit = zeroPosition \<and>
   zeroPosition \<in> reachablePosn ex_fset [fn_pkginit, fn_main, fn_used] \<and>
   zeroPosition \<notin> posnOf ex_fset `
     set (reported ord_insertion ord_insertion None [] ex_fset
       (snd (byPkgPath ex_fset [fn_main, fn_used, fn_method_init]
          (reachablePosn ex_fset [fn_pkginit, fn_main, fn_used], [])))) \<and>
   fn_method_init \<in> set [fn_main, fn_used, fn_method_init] \<and>
   fn_Name fn_method_init = ''init'' \<and>
   fn_method_init \<in>
     set (reported ord_insertion ord_insertion None [] ex_fset
       (snd (byPkgPath ex_fset [fn_main, fn_used, fn_method_init]
          (reachablePosn ex_fset [fn_pkginit, fn_main, fn_used], []))))"
proof -
  let ?reach = "[fn_pkginit, fn_main, fn_used]"
  let ?srcs = "[fn_main, fn_used, fn_method_init]"
  let ?out = "reported ord_insertion ord_insertion None [] ex_fset
       (snd (byPkgPath ex_fset ?srcs (reachablePosn ex_fset ?reach, [])))"
  have m: "fn_pkginit \<in> set ?reach" by simp
  have n: "fn_Name fn_pkginit = ''init''" by (simp add: fn_pkginit_def)
  have i: "\<not> IsValid (fn_Pos fn_pkginit)" by (simp add: fn_pkginit_def IsValid_def NoPos_def)
  have z: "posnOf ex_fset fn_pkginit = zeroPosition"
    by (simp add: fn_pkginit_def Fset_Position_def NoPos_def)
  have m2: "fn_method_init \<in> set ?srcs" by simp
  have h2: "fn_Name fn_method_init = ''init'' \<and>
      posnOf ex_fset fn_method_init \<notin> reachablePosn ex_fset ?reach \<and>
      find (\<lambda>G. posnOf ex_fset G = posnOf ex_fset fn_method_init) ?srcs = Some fn_method_init \<and>
      pos_Filename (posnOf ex_fset fn_method_init) \<notin> set [] \<and>
      filterAllows None (fn_PkgPath fn_method_init)"
    by code_simp
  note t = reachable_positions_not_reported[of ?reach ex_fset ord_insertion ord_insertion None
      "[]" ?srcs]
  have r1: "posnOf ex_fset fn_pkginit \<in> reachablePosn ex_fset ?reach \<and>
      (\<forall>G \<in> set ?out. posnOf ex_fset G \<noteq> posnOf ex_fset fn_pkginit)"
    using t m n by blast
  have r2: "fn_method_init \<in> set ?out"
    using t m2 h2 by blast
  from m n i z r1 r2 m2 h2 show ?thesis by (auto simp: image_iff)
qed

section \<open>The variant of part_000: filter and order\<close>

lemma lookupGroup_pkg:
  assumes "\<forall>(k, m) \<in> set g. \<forall>f \<in> set m. fn_PkgPath f = k" and "f \<in> set (lookupGroup g k)"
  shows "fn_PkgPath f = k"
proof (cases "map_of g k")
  case None
  then show ?thesis using assms(2) by (simp add: lookupGroup_def)
next
  case (Some m)
  then have "(k, m) \<in> set g" by (rule map_of_SomeD)
  then show ?thesis using assms Some by (auto simp: lookupGroup_def)
qed

lemma sorted_concat_by_key:
  assumes "sorted ks" and "\<forall>k \<in> set ks. \<forall>x \<in> set (body k). key x = k"
  shows "sorted (map key (concat (map body ks)))"
  using assms
proof (induction ks)
  case Nil
  then show ?case by simp
next
  case (Cons k ks)
  have hd_const: "\<forall>x \<in> set (body k). key x = k" using Cons.prems by simp
  then have "map key (body k) = replicate (length (body k)) k"
    by (simp add: map_replicate_const[symmetric] cong: map_cong)
  then have s1: "sorted (map key (body k))" by (simp add: sorted_replicate)
  have s2: "sorted (map key (concat (map body ks)))"
    using Cons by simp
  have le: "\<forall>x \<in> set (body k). \<forall>y \<in> set (concat (map body ks)). key x \<le> key y"
    using Cons.prems by auto
  show ?case using s1 s2 le by (simp add: sorted_append)
qed

lemma reported_deadfunc_sorted:
  assumes "\<forall>(k, m) \<in> set g. \<forall>f \<in> set m. fn_PkgPath f = k"
  shows "sorted (map fn_PkgPath (reported_deadfunc ordF re gen fs g))"
  unfolding reported_deadfunc_def
proof (rule sorted_concat_by_key)
  show "sorted (sort (map fst g))" by simp
  show "\<forall>k \<in> set (sort (map fst g)).
      \<forall>x \<in> set (if \<not> re k then []
         else filter (\<lambda>fn. pos_Filename (posnOf fs fn) \<notin> set gen) (rangeKeys ordF (lookupGroup g k))).
        fn_PkgPath x = k"
    using lookupGroup_pkg[OF assms] by (auto simp: rangeKeys_def)
qed

lemma deadfunc_sorted_by_package:
  "sorted (map fn_PkgPath
     (reported_deadfunc ordF re gen fs (snd (byPkgPath fs srcs (R, [])))))"
proof -
  have "grp_inv fs (fst (byPkgPath fs srcs (R, []))) (snd (byPkgPath fs srcs (R, [])))"
    by (rule byPkgPath_inv[OF grp_inv_empty])
  then show ?thesis by (intro reported_deadfunc_sorted) (simp add: grp_inv_def)
qed

lemma reported_deadfunc_matches:
  assumes "\<forall>(k, m) \<in> set g. \<forall>f \<in> set m. fn_PkgPath f = k"
    and "G \<in> set (reported_deadfunc ordF re gen fs g)"
  shows "re (fn_PkgPath G)"
  using assms(2) lookupGroup_pkg[OF assms(1)]
  by (auto simp: reported_deadfunc_def rangeKeys_def split: if_splits)

lemma deadfunc_default_filter:
  assumes "runAnalysis_deadfunc ordF env = Returned (issues, err)"
  shows "\<exists>ld first others re.
     Load env False = Inr ld \<and> initial ld = first # others \<and>
     Compile env (moduleFilter env first) = Inr re \<and> err = None \<and>
     issues = map (issueOf_deadfunc env (fset ld))
       (reported_deadfunc ordF re (generated ld) (fset ld)
          (snd (byPkgPath (fset ld) (sourceFuncs ld)
             (reachablePosn (fset ld) (reachable ld), [])))) \<and>
     (\<forall>G \<in> set (reported_deadfunc ordF re (generated ld) (fset ld)
          (snd (byPkgPath (fset ld) (sourceFuncs ld)
             (reachablePosn (fset ld) (reachable ld), [])))). re (fn_PkgPath G))"
proof -
  from assms obtain ld first others re where
    l: "Load env False = Inr ld" and i: "initial ld = first # others" and
    c: "Compile env (moduleFilter env first) = Inr re" and e: "err = None" and
    iss: "issues = map (issueOf_deadfunc env (fset ld))
       (reported_deadfunc ordF re (generated ld) (fset ld)
          (snd (byPkgPath (fset ld) (sourceFuncs ld)
             (reachablePosn (fset ld) (reachable ld), []))))"
    by (auto simp: runAnalysis_deadfunc_def split: sum.splits list.splits if_splits)
  have "grp_inv (fset ld) (fst (byPkgPath (fset ld) (sourceFuncs ld)
             (reachablePosn (fset ld) (reachable ld), [])))
          (snd (byPkgPath (fset ld) (sourceFuncs ld)
             (reachablePosn (fset ld) (reachable ld), [])))"
    by (rule byPkgPath_inv[OF grp_inv_empty])
  then have pk: "\<forall>(k, m) \<in> set (snd (byPkgPath (fset ld) (sourceFuncs ld)
             (reachablePosn (fset ld) (reachable ld), []))). \<forall>f \<in> set m. fn_PkgPath f = k"
    by (simp add: grp_inv_def)
  from l i c e iss reported_deadfunc_matches[OF pk] show ?thesis by blast
qed

lemma moduleFilter_of_module:
  "pkg_Module first = Some path \<Longrightarrow> path \<noteq> [] \<Longrightarrow>
   moduleFilter env first = ''^'' @ QuoteMeta env path @ [CHR 0x5C, CHR ''b'']"
  by (simp add: moduleFilter_def)

lemma moduleFilter_without_module:
  "pkg_Module first = None \<or> pkg_Module first = Some [] \<Longrightarrow> moduleFilter env first = []"
  by (auto simp: moduleFilter_def)

lemma deadfunc_fatal_exits:
  "(\<forall>err. Load env False = Inl err \<longrightarrow> runAnalysis_deadfunc ordF env = Exited (''Load: '' @ err)) \<and>
   (\<forall>ld. Load env False = Inr ld \<and> initial ld = [] \<longrightarrow>
      runAnalysis_deadfunc ordF env = Exited ''no packages'') \<and>
   (\<forall>ld. Load env False = Inr ld \<and> initial ld \<noteq> [] \<and> 0 < printErrors ld \<longrightarrow>
      runAnalysis_deadfunc ordF env = Exited ''packages contain errors'') \<and>
   (\<forall>ld. Load env False = Inr ld \<and> initial ld \<noteq> [] \<and> printErrors ld = 0 \<and>
        (\<exists>re. Compile env (moduleFilter env (hd (initial ld))) = Inr re) \<and> mains ld = 0 \<longrightarrow>
      runAnalysis_deadfunc ordF env = Exited ''no main packages'')"
  by (auto simp: runAnalysis_deadfunc_def split: sum.splits list.splits)

lemma deadfunc_keeps_to_module:
  "runAnalysis_deadfunc ord_fn_desc (ex_env ex_loaded)
     = Returned
         ([\<lparr>df_Name = ''spare'', df_Filename = ''main.go'', df_Line = 9, df_Pos = 80\<rparr>,
           \<lparr>df_Name = ''helper'', df_Filename = ''main.go'', df_Line = 7, df_Pos = 60\<rparr>,
           \<lparr>df_Name = ''Trim'', df_Filename = ''internal/util/util.go'', df_Line = 3,
              df_Pos = 120\<rparr>], None)"
  by code_simp

text \<open>
  The report loop of the variant is the report loop of deadcode.go with a compiled filter
  and the package paths traversed in sorted order, so what is proved of \<open>reported\<close> for
  every traversal order holds of \<open>reported_deadfunc\<close>. The order within a package is
  open in the variant too.
\<close>

lemma reported_deadfunc_is_reported:
  assumes "distinct (map fst g)"
  shows "reported_deadfunc ordF re gen fs g
     = reported (visitRank (sort (map fst g))) ordF (Some re) gen fs g"
proof -
  have "rangeKeys (visitRank (sort (map fst g))) (map fst g) = sort (map fst g)"
    by (rule rangeKeys_any_order[OF assms]) simp
  then show ?thesis
    by (simp add: reported_deadfunc_def reported_def filterAllows_def)
qed

lemma deadfunc_report_is_sorted_traversal:
  "reported_deadfunc ordF re gen fs (snd (byPkgPath fs srcs (R, [])))
     = reported (visitRank (sort (map fst (snd (byPkgPath fs srcs (R, [])))))) ordF (Some re) gen fs
         (snd (byPkgPath fs srcs (R, [])))"
proof -
  have "grp_inv fs (fst (byPkgPath fs srcs (R, []))) (snd (byPkgPath fs srcs (R, [])))"
    by (rule byPkgPath_inv[OF grp_inv_empty])
  then have "distinct (map fst (snd (byPkgPath fs srcs (R, []))))"
    by (simp add: grp_inv_def)
  then show ?thesis by (rule reported_deadfunc_is_reported)
qed

lemma deadfunc_same_functions_in_any_order:
  "mset (reported_deadfunc ordF re gen fs (snd (byPkgPath fs srcs (R, []))))
   = mset (reported_deadfunc ordF' re gen fs (snd (byPkgPath fs srcs (R, []))))"
  by (simp only: deadfunc_report_is_sorted_traversal dead_mset)

lemma deadfunc_order_within_package_differs:
  "runAnalysis_deadfunc ord_insertion (ex_env ex_loaded)
     \<noteq> runAnalysis_deadfunc ord_fn_desc (ex_env ex_loaded)"
  by code_simp

section \<open>The claims about filter, order and repeated runs\<close>

lemma deadIssues_mset:
  "mset (deadIssues ordP ordF env flt ld) =
     image_mset (issueOf env (fset ld))
       (filter_mset (survives flt (generated ld) (fset ld))
          (mset (unreachable (fset ld) (sourceFuncs ld) (reachablePosn (fset ld) (reachable ld)))))"
proof -
  have "mset (deadFuncs ordP ordF flt ld) =
      mset (filter (survives flt (generated ld) (fset ld))
        (unreachable (fset ld) (sourceFuncs ld) (reachablePosn (fset ld) (reachable ld))))"
    unfolding deadFuncs_def by (rule dead_mset)
  then show ?thesis
    using arg_cong[of "mset (deadFuncs ordP ordF flt ld)" _ "image_mset (issueOf env (fset ld))"]
    by (simp add: deadIssues_deadFuncs)
qed

text \<open>
  C8. Widening the filter never removes an Issue: when both patterns compile (or are
  empty) and every package path the first filter lets through also passes the second,
  the Issues of a run under the first are among the Issues of a run under the second,
  with their multiplicities, for the same loaded program and whatever the map traversal
  orders of the two runs are.
\<close>

theorem filter_widening_keeps_issues:
  assumes c: "compileFilter env (Filter s) = Inr f"
    and c': "compileFilter env (Filter s') = Inr f'"
    and t: "Test s' = Test s"
    and wider: "\<forall>p. filterAllows f p \<longrightarrow> filterAllows f' p"
  shows "mset (fst (runAnalysis ordP ordF env s)) \<subseteq># mset (fst (runAnalysis ordP' ordF' env s'))"
proof (cases "Load env (Test s)")
  case (Inl err)
  then show ?thesis using t by (simp add: runAnalysis_cases)
next
  case (Inr ld)
  let ?U = "mset (unreachable (fset ld) (sourceFuncs ld) (reachablePosn (fset ld) (reachable ld)))"
  have "filter_mset (survives f (generated ld) (fset ld)) ?U
      \<subseteq># filter_mset (survives f' (generated ld) (fset ld)) ?U"
    using wider by (intro filter_mset_mono_strong) auto
  then have "mset (deadIssues ordP ordF env f ld) \<subseteq># mset (deadIssues ordP' ordF' env f' ld)"
    unfolding deadIssues_mset by (rule image_mset_subseteq_mono)
  then show ?thesis using Inr t c c' by (simp add: runAnalysis_cases)
qed


lemma take_take_prefix:
  assumes h: "take n p = a @ b" and l: "length a \<le> n"
  shows "take (length a) p = a"
proof -
  have "take (length a) p = take (length a) (take n p)"
    using l by (simp add: min_def)
  also have "\<dots> = a" by (simp add: h)
  finally show ?thesis .
qed

theorem filter_widening_keeps_issues_witness:
  "fst (runAnalysis ord_insertion ord_insertion (ex_env ex_loaded)
          \<lparr>Test = False, Filter = ''^app/internal''\<rparr>)
     = [\<lparr>Func = ''Trim'', Filename = ''internal/util/util.go'', Line = 3\<rparr>] \<and>
   fst (runAnalysis ord_pkg_desc ord_fn_desc (ex_env ex_loaded) \<lparr>Test = False, Filter = ''^app''\<rparr>)
     = [\<lparr>Func = ''Trim'', Filename = ''internal/util/util.go'', Line = 3\<rparr>,
        \<lparr>Func = ''spare'', Filename = ''main.go'', Line = 9\<rparr>,
        \<lparr>Func = ''helper'', Filename = ''main.go'', Line = 7\<rparr>] \<and>
   mset (fst (runAnalysis ord_insertion ord_insertion (ex_env ex_loaded)
          \<lparr>Test = False, Filter = ''^app/internal''\<rparr>))
     \<subseteq># mset (fst (runAnalysis ord_pkg_desc ord_fn_desc (ex_env ex_loaded)
          \<lparr>Test = False, Filter = ''^app''\<rparr>))"
proof -
  let ?s = "\<lparr>Test = False, Filter = ''^app/internal''\<rparr>"
  let ?s' = "\<lparr>Test = False, Filter = ''^app''\<rparr>"
  have l: "isLiteral ''app/internal''" and l': "isLiteral ''app''"
    by code_simp+
  have c: "compileFilter (ex_env ex_loaded) (Filter ?s)
      = Inr (Some (\<lambda>p. take (length ''app/internal'') p = ''app/internal''))"
    using l by (simp add: compileFilter_def ex_env_def ex_Compile_def)
  have c': "compileFilter (ex_env ex_loaded) (Filter ?s') = Inr (Some (\<lambda>p. take (length ''app'') p = ''app''))"
    using l' by (simp add: compileFilter_def ex_env_def ex_Compile_def)
  have t: "Test ?s' = Test ?s" by simp
  have wider: "\<forall>p. filterAllows (Some (\<lambda>p. take (length ''app/internal'') p = ''app/internal'')) p \<longrightarrow>
      filterAllows (Some (\<lambda>p. take (length ''app'') p = ''app'')) p"
  proof (intro allI impI)
    fix p :: string
    assume "filterAllows (Some (\<lambda>p. take (length ''app/internal'') p = ''app/internal'')) p"
    then have h: "take (length ''app/internal'') p = ''app'' @ ''/internal''"
      by (simp add: filterAllows_def)
    have "take (length ''app'') p = ''app''"
      by (rule take_take_prefix[OF h]) simp
    then show "filterAllows (Some (\<lambda>p. take (length ''app'') p = ''app'')) p" by (simp add: filterAllows_def)
  qed
  have r: "fst (runAnalysis ord_insertion ord_insertion (ex_env ex_loaded) ?s)
     = [\<lparr>Func = ''Trim'', Filename = ''internal/util/util.go'', Line = 3\<rparr>]"
    by code_simp
  have r': "fst (runAnalysis ord_pkg_desc ord_fn_desc (ex_env ex_loaded) ?s')
     = [\<lparr>Func = ''Trim'', Filename = ''internal/util/util.go'', Line = 3\<rparr>,
        \<lparr>Func = ''spare'', Filename = ''main.go'', Line = 9\<rparr>,
        \<lparr>Func = ''helper'', Filename = ''main.go'', Line = 7\<rparr>]"
    by code_simp
  from filter_widening_keeps_issues[OF c c' t wider,
      of ord_insertion ord_insertion ord_pkg_desc ord_fn_desc] r r'
  show ?thesis by blast
qed

text \<open>
  C9, as stated, fails: the order of the Issues of one package follows the traversal
  order of a Go map, which may differ between two runs on the same input. Here two runs
  differ only in the order in which the functions of package \<^verbatim>\<open>app\<close> are visited.
\<close>

theorem counterexample_order_differs_between_runs:
  "runAnalysis ord_insertion ord_insertion (ex_env ex_loaded) \<lparr>Test = False, Filter = ''^app''\<rparr>
     = ([\<lparr>Func = ''helper'', Filename = ''main.go'', Line = 7\<rparr>,
         \<lparr>Func = ''spare'', Filename = ''main.go'', Line = 9\<rparr>,
         \<lparr>Func = ''Trim'', Filename = ''internal/util/util.go'', Line = 3\<rparr>], None) \<and>
   runAnalysis ord_insertion ord_fn_desc (ex_env ex_loaded) \<lparr>Test = False, Filter = ''^app''\<rparr>
     = ([\<lparr>Func = ''spare'', Filename = ''main.go'', Line = 9\<rparr>,
         \<lparr>Func = ''helper'', Filename = ''main.go'', Line = 7\<rparr>,
         \<lparr>Func = ''Trim'', Filename = ''internal/util/util.go'', Line = 3\<rparr>], None) \<and>
   runAnalysis ord_insertion ord_insertion (ex_env ex_loaded) \<lparr>Test = False, Filter = ''^app''\<rparr>
     \<noteq> runAnalysis ord_insertion ord_fn_desc (ex_env ex_loaded) \<lparr>Test = False, Filter = ''^app''\<rparr>"
  by code_simp

text \<open>
  C9, amended. Two runs on the same input return the same error and the same Issues with
  the same multiplicities; only the order of the sequence depends on the map traversal
  orders of the run.
\<close>

theorem same_issues_in_any_traversal_order:
  "mset (fst (runAnalysis ordP ordF env s)) = mset (fst (runAnalysis ordP' ordF' env s)) \<and>
   snd (runAnalysis ordP ordF env s) = snd (runAnalysis ordP' ordF' env s)"
proof -
  have "\<And>flt ld. mset (deadIssues ordP ordF env flt ld) = mset (deadIssues ordP' ordF' env flt ld)"
    by (simp only: deadIssues_mset)
  then show ?thesis
    by (simp add: runAnalysis_cases split: sum.splits)
qed

theorem same_issues_in_any_traversal_order_witness:
  "mset (fst (runAnalysis ord_insertion ord_insertion (ex_env ex_loaded)
       \<lparr>Test = False, Filter = ''^app''\<rparr>))
   = mset (fst (runAnalysis ord_pkg_desc ord_fn_desc (ex_env ex_loaded)
       \<lparr>Test = False, Filter = ''^app''\<rparr>))"
  by (rule conjunct1[OF same_issues_in_any_traversal_order])

text \<open>
  C1. The claim asks that a run with an empty filter reports only functions of packages
  at or under the path of the first module. \<open>runAnalysis\<close> of deadcode.go does not do
  that: with the option empty the filter stays nil (lines 129-137, under the comment
  "If -filter is unset, use first module (if available)") and every package passes. Here
  the first module is \<^verbatim>\<open>app\<close> and the unreachable function of the dependency
  \<^verbatim>\<open>other.org/dep\<close> is reported. The variant of part_000 derives the filter from the module
  (lemmas \<open>deadfunc_default_filter\<close>, \<open>moduleFilter_of_module\<close>, \<open>deadfunc_keeps_to_module\<close>).
\<close>

theorem empty_filter_reports_dependency:
  "pkg_Module (hd (initial ex_loaded)) = Some ''app'' \<and>
   fn_PkgPath fn_dep = ''other.org/dep'' \<and>
   issueOf (ex_env ex_loaded) ex_fset fn_dep
     = \<lparr>Func = ''Unused'', Filename = ''../go/pkg/mod/other.org/dep/dep.go'', Line = 2\<rparr> \<and>
   runAnalysis ord_insertion ord_insertion (ex_env ex_loaded) \<lparr>Test = False, Filter = []\<rparr>
     = ([\<lparr>Func = ''helper'', Filename = ''main.go'', Line = 7\<rparr>,
         \<lparr>Func = ''spare'', Filename = ''main.go'', Line = 9\<rparr>,
         \<lparr>Func = ''Trim'', Filename = ''internal/util/util.go'', Line = 3\<rparr>,
         \<lparr>Func = ''Unused'', Filename = ''../go/pkg/mod/other.org/dep/dep.go'', Line = 2\<rparr>], None)"
  by code_simp

text \<open>
  C2. The claim asks for Issues in ascending order of package path. \<open>runAnalysis\<close> of
  deadcode.go ranges over \<^verbatim>\<open>maps.Keys(byPkgPath)\<close> without sorting (line 202), so the
  packages come in map order: here \<^verbatim>\<open>app\<close> is visited last. The variant of part_000
  ranges over \<^verbatim>\<open>slices.Sorted(maps.Keys(byPkgPath))\<close> and is sorted (lemma
  \<open>deadfunc_sorted_by_package\<close>).
\<close>

theorem package_order_follows_map_traversal:
  "runAnalysis ord_pkg_desc ord_insertion (ex_env ex_loaded) \<lparr>Test = False, Filter = []\<rparr>
     = ([\<lparr>Func = ''Trim'', Filename = ''internal/util/util.go'', Line = 3\<rparr>,
         \<lparr>Func = ''Unused'', Filename = ''../go/pkg/mod/other.org/dep/dep.go'', Line = 2\<rparr>,
         \<lparr>Func = ''helper'', Filename = ''main.go'', Line = 7\<rparr>,
         \<lparr>Func = ''spare'', Filename = ''main.go'', Line = 9\<rparr>], None) \<and>
   map fn_PkgPath (deadFuncs ord_pkg_desc ord_insertion None ex_loaded)
     = [''app/internal/util'', ''other.org/dep'', ''app'', ''app''] \<and>
   \<not> sorted (map fn_PkgPath (deadFuncs ord_pkg_desc ord_insertion None ex_loaded))"
  by code_simp

end
